theory Spec2Isabelle
  imports Complex_Main "HOL-Library.Sublist" "HOL-Library.Log_Nat"
begin

section \<open>Data model\<close>

text \<open>
  The analyzer works on JavaScript strings and numbers.

  \<^item> A text is a \<^typ>\<open>string\<close>: the list of its code units, each \<^typ>\<open>char\<close> read as
    the code unit of the same number (U+0000 to U+00FF). \<open>length\<close> is the
    \<open>.length\<close> of the source.
  \<^item> A number is an IEEE 754 double. A finite double is modelled as the \<^typ>\<open>real\<close>
    it denotes, and every arithmetic operation of the source rounds its exact result to
    the nearest double, ties to even (\<open>fl\<close> below). A weight is the double that
    \<open>JSON.parse\<close> returned; a decimal literal \<open>d\<close> of the source or of a JSON text is the
    double \<open>fl d\<close>.
  \<^item> A \<open>Record<string, number>\<close> is the list of its entries in the order in which
    \<open>Object.keys\<close>, \<open>Object.values\<close> and \<open>Object.entries\<close> enumerate them.
\<close>

type_synonym weights = "(string \<times> real) list"

subsection \<open>Double arithmetic\<close>

text \<open>
  The binade of a positive real \<open>x\<close> is the exponent \<open>e\<close> with \<open>2^e \<le> x < 2^(e+1)\<close>,
  computed from the bit length of the integer part of \<open>x\<close> (or of \<open>1 / x\<close>).
\<close>

definition binade :: "real \<Rightarrow> int" where
  "binade x = (if 1 \<le> x then bitlen \<lfloor>x\<rfloor> - 1 else - bitlen (\<lceil>1 / x\<rceil> - 1))"

text \<open>Rounding to the nearest integer, a tie to the even one.\<close>

definition roundEven :: "real \<Rightarrow> int" where
  "roundEven y =
     (let f = \<lfloor>y\<rfloor>; r = y - of_int f
      in if r < 1 / 2 then f else if 1 / 2 < r then f + 1 else if even f then f else f + 1)"

text \<open>
  The spacing of the doubles around a positive \<open>x\<close>: 52 fraction bits below the binade,
  and the fixed spacing \<open>2^-1074\<close> of the subnormal numbers below \<open>2^-1022\<close>.
\<close>

definition ulp :: "real \<Rightarrow> real" where
  "ulp x = 2 powi (max (binade x) (- 1022) - 52)"

definition fl_pos :: "real \<Rightarrow> real" where
  "fl_pos x = of_int (roundEven (x / ulp x)) * ulp x"

text \<open>
  \<open>fl x\<close> is the double nearest to \<open>x\<close>, the result of an operation whose exact value is
  \<open>x\<close>. Results beyond the largest double are \<open>Infinity\<close> in the source and stay finite
  here; \<open>calculateScore\<close> returns 100 for them in both.
\<close>

definition fl :: "real \<Rightarrow> real" where
  "fl x = (if 0 \<le> x then fl_pos x else - fl_pos (- x))"

subsection \<open>String primitives\<close>

text \<open>\<open>String.prototype.includes\<close>: the search string occurs at some position.\<close>

fun str_includes :: "string \<Rightarrow> string \<Rightarrow> bool" where
  "str_includes [] searchString = (searchString = [])"
| "str_includes (c # cs) searchString =
     (prefix searchString (c # cs) \<or> str_includes cs searchString)"

text \<open>
  \<open>String.prototype.split\<close> with a separator of one code unit: the substrings between
  successive occurrences of the separator; the empty text gives one empty substring.
\<close>

function split_on :: "char \<Rightarrow> string \<Rightarrow> string list" where
  "split_on sep s =
     (case dropWhile (\<lambda>c. c \<noteq> sep) s of
        [] \<Rightarrow> [s]
      | _ # rest \<Rightarrow> takeWhile (\<lambda>c. c \<noteq> sep) s # split_on sep rest)"
  by pat_completeness auto
termination
proof (relation "measure (\<lambda>(sep, s). length s)")
  fix sep :: char and s :: string and x rest
  assume "dropWhile (\<lambda>c. c \<noteq> sep) s = x # rest"
  then have "length rest < length (dropWhile (\<lambda>c. c \<noteq> sep) s)"
    by simp
  also have "\<dots> \<le> length s"
    by (rule length_dropWhile_le)
  finally show "((sep, rest), (sep, s)) \<in> measure (\<lambda>(sep, s). length s)"
    by simp
qed simp

declare split_on.simps [simp del]

text \<open>\<open>Array.prototype.join\<close> with a separator of one code unit.\<close>

fun join_on :: "char \<Rightarrow> string list \<Rightarrow> string" where
  "join_on sep [] = []"
| "join_on sep [s] = s"
| "join_on sep (s # t # ss) = s @ sep # join_on sep (t # ss)"

text \<open>
  White space as \<open>String.prototype.trim\<close> and the class \<open>\s\<close> see it: TAB, LF, VT, FF,
  CR, SPACE and NO-BREAK SPACE are the only such code units below U+0100.
\<close>

definition isWhiteSpace :: "char \<Rightarrow> bool" where
  "isWhiteSpace c =
     (c \<in> set [CHR 0x09, CHR 0x0A, CHR 0x0B, CHR 0x0C, CHR 0x0D, CHR 0x20, CHR 0xA0])"

definition trim :: "string \<Rightarrow> string" where
  "trim s = rev (dropWhile isWhiteSpace (rev (dropWhile isWhiteSpace s)))"

text \<open>
  \<open>split(/\s+/)\<close>: the text is cut at every maximal run of white space. A run at the
  start or at the end leaves an empty token there, and the empty text is one empty token.
\<close>

function split_ws :: "string \<Rightarrow> string list" where
  "split_ws s =
     (case dropWhile (\<lambda>c. \<not> isWhiteSpace c) s of
        [] \<Rightarrow> [s]
      | _ # rest \<Rightarrow>
          takeWhile (\<lambda>c. \<not> isWhiteSpace c) s # split_ws (dropWhile isWhiteSpace rest))"
  by pat_completeness auto
termination
proof (relation "measure length")
  fix s :: string and x rest
  assume "dropWhile (\<lambda>c. \<not> isWhiteSpace c) s = x # rest"
  then have "length rest < length (dropWhile (\<lambda>c. \<not> isWhiteSpace c) s)"
    by simp
  also have "\<dots> \<le> length s"
    by (rule length_dropWhile_le)
  finally have "length rest < length s" .
  moreover have "length (dropWhile isWhiteSpace rest) \<le> length rest"
    by (rule length_dropWhile_le)
  ultimately show "(dropWhile isWhiteSpace rest, s) \<in> measure length"
    by simp
qed simp

declare split_ws.simps [simp del]

text \<open>
  \<open>String.prototype.toLowerCase\<close> on code units below U+0100: the letters A to Z and the
  capital letters U+00C0 to U+00DE (U+00D7, the multiplication sign, is none) move up
  by 32.
\<close>

definition toLowerChar :: "char \<Rightarrow> char" where
  "toLowerChar c =
     (let n = of_char c :: nat
      in if (65 \<le> n \<and> n \<le> 90) \<or> (192 \<le> n \<and> n \<le> 222 \<and> n \<noteq> 215)
         then char_of (n + 32) else c)"

definition toLowerCase :: "string \<Rightarrow> string" where
  "toLowerCase s = map toLowerChar s"

text \<open>The test \<open>/^\d+$/\<close>: one or more code units, all of them decimal digits.\<close>

definition isDigit :: "char \<Rightarrow> bool" where
  "isDigit c = (c \<in> set ''0123456789'')"

definition all_digits :: "string \<Rightarrow> bool" where
  "all_digits s = (s \<noteq> [] \<and> list_all isDigit s)"

text \<open>
  \<open>Math.round\<close>: the integer nearest to its argument, a half rounded up. The argument is
  a double and the result is exact.
\<close>

definition Math_round :: "real \<Rightarrow> int" where
  "Math_round x = \<lfloor>x + 1 / 2\<rfloor>"

section \<open>Keyword inserter\<close>

definition insertKeyword :: "string \<Rightarrow> string \<Rightarrow> string" where
  "insertKeyword text keyword =
     (if str_includes text keyword then text
      else
        let sentences = split_on CHR ''.'' text
        in if length sentences = 0 then keyword @ ''. '' @ text
           else join_on CHR ''.'' (sentences[0 := sentences ! 0 @ '' '' @ keyword]))"

section \<open>Score calculator\<close>

text \<open>The parts of \<open>calculateScore\<close>, in the order of the source.\<close>

definition maxTopicScore :: "weights \<Rightarrow> real" where
  "maxTopicScore topics = fold max (map snd topics) 0"

definition keywordDensity :: "nat \<Rightarrow> nat \<Rightarrow> real" where
  "keywordDensity keywordCount wordCount =
     min (fl (fl (real keywordCount / real wordCount) * 100)) 20"

definition lengthFactor :: "nat \<Rightarrow> real" where
  "lengthFactor textLength =
     (if textLength < 100 then fl 0.6
      else if textLength < 200 then fl 0.8
      else if textLength < 500 then fl 0.9
      else 1)"

definition keywordFactor :: "nat \<Rightarrow> real" where
  "keywordFactor keywordCount =
     (if keywordCount < 3 then fl 0.7
      else if keywordCount < 5 then fl 0.85
      else 1)"

definition diversityFactor :: "real list \<Rightarrow> real" where
  "diversityFactor topicScores =
     (if length topicScores > 1 then
        let sortedScores = rev (sort topicScores);
            topTwo = take 2 sortedScores
        in if length topTwo > 1 \<and> topTwo ! 1 > fl (topTwo ! 0 * fl 0.7) then fl 1.1 else 1
      else 1)"

text \<open>
  The score before the adjustment above 85: the weighted base score times the three
  factors, each operation rounded as the source evaluates it, from left to right.
\<close>

definition rawScore :: "weights \<Rightarrow> weights \<Rightarrow> string \<Rightarrow> real" where
  "rawScore keywords topics text =
     (let keywordCount = length (map fst keywords);
          topicScores = map snd topics;
          textLength = length (trim text);
          wordCount = length (split_ws (trim text));
          topicRelevance = fl (maxTopicScore topics * 100);
          score = fl (fl (keywordDensity keywordCount wordCount * 2)
                      + fl (topicRelevance * fl 0.8))
      in fl (fl (fl (score * lengthFactor textLength) * keywordFactor keywordCount)
               * diversityFactor topicScores))"

text \<open>
  The guard of the source, \<open>textLength < 20 || keywordCount === 0 || wordCount < 5\<close>,
  on which \<open>calculateScore\<close> returns 0 before it computes anything else.
\<close>

definition degenerate :: "weights \<Rightarrow> string \<Rightarrow> bool" where
  "degenerate keywords text =
     (length (trim text) < 20 \<or> length (map fst keywords) = 0
      \<or> length (split_ws (trim text)) < 5)"

definition calculateScore :: "weights \<Rightarrow> weights \<Rightarrow> string \<Rightarrow> int" where
  "calculateScore keywords topics text =
     (if degenerate keywords text then 0
      else
        let score = rawScore keywords topics text;
            score' = (if score > 85 then fl (85 + fl (fl (score - 85) * fl 0.3)) else score)
        in min 100 (max 0 (Math_round score')))"

section \<open>Content meaningfulness filter\<close>

definition commonWords :: "string list" where
  "commonWords =
     [''the'', ''and'', ''for'', ''are'', ''but'', ''not'', ''you'', ''all'', ''can'',
      ''had'', ''her'', ''was'', ''one'', ''our'', ''out'', ''day'', ''get'', ''has'',
      ''him'', ''his'', ''how'', ''man'', ''new'', ''now'', ''old'', ''see'', ''two'',
      ''way'', ''who'', ''boy'', ''did'', ''its'', ''let'', ''put'', ''say'', ''she'',
      ''too'', ''use'']"

text \<open>
  \<open>new Set(words)\<close> keeps one copy of each token, so its \<open>size\<close> is the length of the
  list without its duplicates.
\<close>

definition isMeaningfulContent :: "string \<Rightarrow> weights \<Rightarrow> bool" where
  "isMeaningfulContent text keywords =
     (let lowerText = toLowerCase text
      in if str_includes lowerText ''lorem ipsum''
            \<or> str_includes lowerText ''sample text''
            \<or> str_includes lowerText ''placeholder'' then False
         else if length (trim text) < 10 then False
         else
           let meaningfulKeywords =
                 filter (\<lambda>kw. length kw > 2
                               \<and> toLowerCase kw \<notin> set commonWords
                               \<and> \<not> all_digits kw) (map fst keywords);
               words = split_ws (toLowerCase text);
               uniqueWords = remdups words;
               repetitionRatio = real (length uniqueWords) / real (length words)
           in if repetitionRatio < 0.5 \<and> length words > 10 then False
              else length meaningfulKeywords > 0)"

text \<open>
  The four rejection conditions in the words of the specification, to be compared with
  the function above.
\<close>

definition spec_placeholder :: "string \<Rightarrow> bool" where
  "spec_placeholder text =
     (\<exists>p \<in> set [''lorem ipsum'', ''sample text'', ''placeholder''].
        sublist p (toLowerCase text))"

definition spec_too_short :: "string \<Rightarrow> bool" where
  "spec_too_short text = (length (trim text) < 10)"

definition spec_repetitive :: "string \<Rightarrow> bool" where
  "spec_repetitive text =
     (let tokens = split_ws (toLowerCase text)
      in real (card (set tokens)) / real (length tokens) < 1 / 2 \<and> length tokens > 10)"

definition spec_excluded :: "string \<Rightarrow> bool" where
  "spec_excluded kw =
     (toLowerCase kw \<in> set commonWords \<or> length kw \<le> 2
      \<or> (kw \<noteq> [] \<and> (\<forall>c \<in> set kw. isDigit c)))"

definition spec_no_keyword :: "weights \<Rightarrow> bool" where
  "spec_no_keyword keywords = (\<forall>kw \<in> set (map fst keywords). spec_excluded kw)"

section \<open>Request handler\<close>

text \<open>
  The part of \<open>POST\<close> that follows the answer of the extraction service: the trimmed
  text, the keyword weights and the topic weights of the answer give the response. The
  field \<open>keywordList\<close> is the field \<open>keywords\<close> of the source, and a field that a
  response does not carry is \<open>None\<close>. The comparator \<open>(a, b) => b[1] - a[1]\<close>
  of the stable \<open>Array.prototype.sort\<close> orders the entries by descending weight and
  keeps the order of entries of equal weight.
\<close>

definition sort_desc :: "weights \<Rightarrow> weights" where
  "sort_desc entries = sort_key (\<lambda>e. - snd e) entries"

text \<open>The banding of a score in the words of the specification.\<close>

definition spec_band :: "int \<Rightarrow> string" where
  "spec_band s =
     (if s \<ge> 75 then ''high''
      else if s \<ge> 50 then ''medium''
      else if s \<ge> 25 then ''low''
      else ''very-low'')"

record response =
  keywordList :: "string list"
  score :: int
  scoreCategory :: string
  topic :: string
  topicScore :: "real option"
  totalKeywords :: "nat option"
  textLength :: "nat option"
  wordCount :: "nat option"
  message :: "string option"

definition analyze :: "string \<Rightarrow> weights \<Rightarrow> weights \<Rightarrow> response" where
  "analyze trimmedText kws tps =
     (if \<not> isMeaningfulContent trimmedText kws then
        \<lparr>keywordList = [], score = 0, scoreCategory = ''low'',
         topic = ''No meaningful content'',
         topicScore = None, totalKeywords = None, textLength = None, wordCount = None,
         message = Some ''Text seems to be placeholder or lacks SEO value.''\<rparr>
      else
        let keywordArray = map fst (sort_desc kws);
            sortedTopics = sort_desc tps;
            topTopic = (if length sortedTopics > 0 then fst (sortedTopics ! 0)
                        else ''general'');
            s = calculateScore kws tps trimmedText;
            category = (if s \<ge> 75 then ''high''
                        else if s \<ge> 50 then ''medium''
                        else if s \<ge> 25 then ''low''
                        else ''very-low'')
        in \<lparr>keywordList = keywordArray, score = s, scoreCategory = category,
            topic = topTopic,
            topicScore = Some (case sortedTopics of [] \<Rightarrow> 0 | e # _ \<Rightarrow> snd e),
            totalKeywords = Some (length keywordArray),
            textLength = Some (length trimmedText),
            wordCount = Some (length (split_ws trimmedText)),
            message = None\<rparr>)"

section \<open>Sample inputs\<close>

text \<open>
  A text of 80 words and 686 code units, ten keywords and one topic as the extraction
  service may return them; the theorems below are evaluated on them. The weights are
  doubles.
\<close>

definition sample_text :: string where
  "sample_text =
     ''Search engines reward helpful pages that answer practical questions quickly. '' @
     ''Readers appreciate descriptive headings, shorter paragraphs and meaningful internal links. '' @
     ''Original research attracts backlinks because journalists reference trustworthy independent sources. '' @
     ''Compressed images improve loading speed, which strengthens mobile rankings considerably. '' @
     ''Structured metadata helps crawlers understand products, recipes, events and reviews. '' @
     ''Regular content audits remove outdated articles that confuse returning visitors. '' @
     ''Accessible navigation supports keyboard users and benefits every search crawler. '' @
     ''Consistent publishing schedules build audience loyalty and steady organic traffic.''"

definition sample_keywords :: weights where
  "sample_keywords =
     [(''search'', 0.875), (''engines'', 0.75), (''pages'', 0.625), (''headings'', 0.5),
      (''backlinks'', 0.4375), (''images'', 0.375), (''metadata'', 0.3125),
      (''crawlers'', 0.25), (''navigation'', 0.1875), (''traffic'', 0.125)]"

definition sample_topics :: weights where
  "sample_topics = [(''marketing'', 0.9375)]"

text \<open>
  A text of 50 words and 554 code units, to go with six keywords and a topic whose weight
  is the JSON number \<open>0.95\<close>; and a text of 24 words and 71 code units, to go with one
  keyword and no topic. On both the rounding of the doubles decides the score.
\<close>

definition long_words_text :: string where
  "long_words_text =
     ''Original research attracts backlinks because journalists reference trustworthy independent sources. '' @
     ''Comprehensive documentation encourages experienced developers, reducing unnecessary customer support conversations. '' @
     ''Responsive stylesheets guarantee comfortable reading experiences across smartphones, tablets, televisions. '' @
     ''Descriptive alternative attributes communicate photographic information towards visually impaired audiences. '' @
     ''Trustworthy organisations disclose advertising partnerships, sponsorship arrangements, affiliate commissions, corrections.''"

definition long_words_topics :: weights where
  "long_words_topics = [(''publishing'', fl 0.95)]"

definition short_words_text :: string where
  "short_words_text =
     ''we do it so he is up to go in at my pc as an ox or if no on by us be ok''"

section \<open>Properties of the double arithmetic\<close>

text \<open>
  The binade brackets its argument, so rounding stays within the binade and its upper
  end; with the monotonicity of \<open>roundEven\<close> this makes \<open>fl\<close> monotone.
\<close>

lemma powi_nat: "0 \<le> e \<Longrightarrow> (2::real) powi e = 2 ^ nat e"
  by (simp add: power_int_def)

lemma powi_neg_nat: "0 \<le> e \<Longrightarrow> (2::real) powi (- e) = 1 / 2 ^ nat e"
  by (simp add: power_int_minus_divide powi_nat)

lemma binade_lower: assumes "0 < x" shows "2 powi binade x \<le> x"
proof (cases "1 \<le> x")
  case True
  define n where "n = \<lfloor>x\<rfloor>"
  have n: "0 < n"
    using True by (simp add: n_def)
  then have b1: "1 \<le> bitlen n"
    by (auto simp: bitlen_alt_def)
  have "(2::int) ^ nat (bitlen n - 1) \<le> n"
    using bitlen_bounds [OF n] by simp
  then have "real_of_int (2 ^ nat (bitlen n - 1)) \<le> real_of_int n"
    by (rule of_int_le_iff [THEN iffD2])
  also have "\<dots> \<le> x"
    by (simp add: n_def)
  finally have "(2::real) ^ nat (bitlen n - 1) \<le> x"
    by simp
  moreover have "binade x = bitlen n - 1"
    using True by (simp add: binade_def n_def)
  ultimately show ?thesis
    using b1 by (simp add: powi_nat)
next
  case False
  define y where "y = 1 / x"
  define k where "k = \<lceil>y\<rceil> - 1"
  have y: "1 < y"
    using False assms by (simp add: y_def)
  then have k: "0 < k"
    unfolding k_def by linarith
  have "y \<le> of_int k + 1"
    unfolding k_def by simp
  also have "real_of_int k + 1 \<le> real_of_int (2 ^ nat (bitlen k))"
    using bitlen_bounds [OF k] by linarith
  finally have "y \<le> 2 ^ nat (bitlen k)"
    by simp
  then have "1 / 2 ^ nat (bitlen k) \<le> 1 / y"
    using y by (intro divide_left_mono) simp_all
  then have "1 / 2 ^ nat (bitlen k) \<le> x"
    by (simp add: y_def)
  moreover have "binade x = - bitlen k"
    using False by (simp add: binade_def k_def y_def)
  ultimately show ?thesis
    using bitlen_nonneg [of k] by (simp add: powi_neg_nat)
qed

lemma binade_upper: assumes "0 < x" shows "x < 2 powi (binade x + 1)"
proof (cases "1 \<le> x")
  case True
  define n where "n = \<lfloor>x\<rfloor>"
  have n: "0 < n"
    using True by (simp add: n_def)
  have "x < of_int n + 1"
    by (simp add: n_def)
  also have "real_of_int n + 1 \<le> real_of_int (2 ^ nat (bitlen n))"
    using bitlen_bounds [OF n] by linarith
  finally have "x < 2 ^ nat (bitlen n)"
    by simp
  moreover have "binade x + 1 = bitlen n"
    using True by (simp add: binade_def n_def)
  ultimately show ?thesis
    using bitlen_nonneg [of n] by (simp add: powi_nat)
next
  case False
  define y where "y = 1 / x"
  define k where "k = \<lceil>y\<rceil> - 1"
  have y: "1 < y"
    using False assms by (simp add: y_def)
  then have k: "0 < k"
    unfolding k_def by linarith
  then have b1: "1 \<le> bitlen k"
    by (auto simp: bitlen_alt_def)
  have "(2::int) ^ nat (bitlen k - 1) \<le> k"
    using bitlen_bounds [OF k] by simp
  then have "real_of_int (2 ^ nat (bitlen k - 1)) \<le> real_of_int k"
    by (rule of_int_le_iff [THEN iffD2])
  also have "real_of_int k < y"
    unfolding k_def by linarith
  finally have lt: "2 ^ nat (bitlen k - 1) < y"
    by simp
  have "1 / y < 1 / 2 ^ nat (bitlen k - 1)"
    using lt y by (intro divide_strict_left_mono) simp_all
  then have xlt: "x < 1 / 2 ^ nat (bitlen k - 1)"
    by (simp add: y_def)
  have e: "binade x + 1 = - (bitlen k - 1)"
    using False by (simp add: binade_def k_def y_def)
  have p: "(2::real) powi (- (bitlen k - 1)) = 1 / 2 ^ nat (bitlen k - 1)"
    using b1 by (intro powi_neg_nat) simp
  show ?thesis
    unfolding e p by (rule xlt)
qed

lemma binade_mono: assumes "0 < x" and "x \<le> y" shows "binade x \<le> binade y"
proof (rule ccontr)
  assume "\<not> binade x \<le> binade y"
  then have "binade y + 1 \<le> binade x"
    by simp
  then have "(2::real) powi (binade y + 1) \<le> 2 powi binade x"
    by (rule power_int_increasing) simp
  also have "\<dots> \<le> x"
    using assms(1) by (rule binade_lower)
  finally have "2 powi (binade y + 1) \<le> y"
    using assms(2) by simp
  moreover have "y < 2 powi (binade y + 1)"
    using assms by (intro binade_upper) simp
  ultimately show False
    by simp
qed

lemma roundEven_of_int: "roundEven (of_int n) = n"
  by (simp add: roundEven_def)

lemma roundEven_floor: "\<lfloor>y\<rfloor> \<le> roundEven y \<and> roundEven y \<le> \<lfloor>y\<rfloor> + 1"
  by (simp add: roundEven_def Let_def)

lemma roundEven_mono: assumes "x \<le> y" shows "roundEven x \<le> roundEven y"
proof (cases "\<lfloor>x\<rfloor> = \<lfloor>y\<rfloor>")
  case True
  then have "x - of_int \<lfloor>x\<rfloor> \<le> y - of_int \<lfloor>y\<rfloor>"
    using assms by simp
  with True show ?thesis
    by (simp add: roundEven_def Let_def)
next
  case False
  with assms have "\<lfloor>x\<rfloor> < \<lfloor>y\<rfloor>"
    using floor_mono [OF assms] by simp
  then have "roundEven x \<le> \<lfloor>y\<rfloor>"
    using roundEven_floor [of x] by simp
  then show ?thesis
    using roundEven_floor [of y] by simp
qed

lemma ulp_pos: "0 < ulp x"
  by (simp add: ulp_def)

lemma fl_pos_nonneg: "0 \<le> x \<Longrightarrow> 0 \<le> fl_pos x"
proof -
  assume "0 \<le> x"
  then have "0 \<le> x / ulp x"
    using ulp_pos [of x] by simp
  then have "roundEven 0 \<le> roundEven (x / ulp x)"
    by (rule roundEven_mono)
  then have "0 \<le> roundEven (x / ulp x)"
    using roundEven_of_int [of 0] by simp
  then show ?thesis
    using ulp_pos [of x] by (simp add: fl_pos_def)
qed

lemma fl_pos_upper:
  assumes "0 < x" shows "fl_pos x \<le> 2 powi (max (binade x) (- 1022) + 1)"
proof -
  define E where "E = max (binade x) (- 1022)"
  have u: "ulp x = 2 powi (E - 52)"
    by (simp add: ulp_def E_def)
  have split: "(2::real) powi (E + 1) = 2 ^ 53 * 2 powi (E - 52)"
    using power_int_add [of "2::real" 53 "E - 52"] by (simp add: algebra_simps)
  have "x < 2 powi (binade x + 1)"
    using assms by (rule binade_upper)
  also have "\<dots> \<le> 2 powi (E + 1)"
    by (rule power_int_increasing) (simp_all add: E_def)
  finally have "x / ulp x \<le> 2 ^ 53"
    using ulp_pos [of x] by (simp add: u split pos_divide_le_eq)
  then have "x / ulp x \<le> of_int (2 ^ 53)"
    by simp
  then have "roundEven (x / ulp x) \<le> roundEven (of_int (2 ^ 53))"
    by (rule roundEven_mono)
  then have "roundEven (x / ulp x) \<le> 2 ^ 53"
    by (simp only: roundEven_of_int)
  then have "real_of_int (roundEven (x / ulp x)) \<le> real_of_int (2 ^ 53)"
    by (rule of_int_le_iff [THEN iffD2])
  then have "real_of_int (roundEven (x / ulp x)) * ulp x \<le> 2 ^ 53 * ulp x"
    using ulp_pos [of x] by (intro mult_right_mono) simp_all
  also have "\<dots> = 2 powi (E + 1)"
    by (simp only: u split)
  finally show ?thesis
    by (simp only: fl_pos_def E_def)
qed

lemma fl_pos_lower:
  assumes "0 < x" and "- 1022 \<le> binade x" shows "2 powi binade x \<le> fl_pos x"
proof -
  have u: "ulp x = 2 powi (binade x - 52)"
    using assms(2) by (simp add: ulp_def max_def)
  have split: "(2::real) powi binade x = 2 ^ 52 * 2 powi (binade x - 52)"
    using power_int_add [of "2::real" 52 "binade x - 52"] by simp
  have "2 powi binade x \<le> x"
    using assms(1) by (rule binade_lower)
  then have "of_int (2 ^ 52) \<le> x / ulp x"
    using ulp_pos [of x] by (simp add: u split pos_le_divide_eq)
  then have "roundEven (of_int (2 ^ 52)) \<le> roundEven (x / ulp x)"
    by (rule roundEven_mono)
  then have "2 ^ 52 \<le> roundEven (x / ulp x)"
    by (simp only: roundEven_of_int)
  then have "real_of_int (2 ^ 52) \<le> real_of_int (roundEven (x / ulp x))"
    by (rule of_int_le_iff [THEN iffD2])
  then have "2 ^ 52 * ulp x \<le> real_of_int (roundEven (x / ulp x)) * ulp x"
    using ulp_pos [of x] by (intro mult_right_mono) simp_all
  then show ?thesis
    by (simp add: fl_pos_def u split)
qed

lemma fl_pos_mono: assumes "0 < x" and "x \<le> y" shows "fl_pos x \<le> fl_pos y"
proof -
  define Ex where "Ex = max (binade x) (- 1022)"
  define Ey where "Ey = max (binade y) (- 1022)"
  have y: "0 < y"
    using assms by simp
  have "binade x \<le> binade y"
    using assms by (rule binade_mono)
  then have le: "Ex \<le> Ey"
    by (simp add: Ex_def Ey_def)
  show ?thesis
  proof (cases "Ex = Ey")
    case True
    then have u: "ulp x = ulp y"
      by (simp add: ulp_def Ex_def Ey_def)
    have "x / ulp y \<le> y / ulp y"
      using assms(2) ulp_pos [of y] by (simp add: divide_right_mono)
    then have "roundEven (x / ulp y) \<le> roundEven (y / ulp y)"
      by (rule roundEven_mono)
    then have "real_of_int (roundEven (x / ulp y)) \<le> real_of_int (roundEven (y / ulp y))"
      by (rule of_int_le_iff [THEN iffD2])
    then show ?thesis
      using ulp_pos [of y] by (simp add: fl_pos_def u mult_right_mono)
  next
    case False
    with le have lt: "Ex + 1 \<le> Ey"
      by simp
    then have by_eq: "binade y = Ey" and normal: "- 1022 \<le> binade y"
      by (simp_all add: Ex_def Ey_def max_def split: if_splits)
    have "fl_pos x \<le> 2 powi (Ex + 1)"
      unfolding Ex_def using assms(1) by (rule fl_pos_upper)
    also have "\<dots> \<le> 2 powi Ey"
      using lt by (rule power_int_increasing) simp
    also have "\<dots> \<le> fl_pos y"
      using fl_pos_lower [OF y normal] by (simp add: by_eq)
    finally show ?thesis .
  qed
qed

lemma fl_pos_0: "fl_pos 0 = 0"
  by (simp add: fl_pos_def roundEven_def)

lemma fl_mono: assumes "x \<le> y" shows "fl x \<le> fl y"
proof -
  consider "0 < x" | "x = 0" | "x < 0" "0 \<le> y" | "y < 0"
    using assms by linarith
  then show ?thesis
  proof cases
    case 1
    with assms show ?thesis
      by (simp add: fl_def fl_pos_mono)
  next
    case 2
    with assms show ?thesis
      by (simp add: fl_def fl_pos_0 fl_pos_nonneg)
  next
    case 3
    then have "0 \<le> fl_pos (- x)" and "0 \<le> fl_pos y"
      by (simp_all add: fl_pos_nonneg)
    with 3 show ?thesis
      by (simp add: fl_def)
  next
    case 4
    with assms have "fl_pos (- y) \<le> fl_pos (- x)"
      by (intro fl_pos_mono) simp_all
    with 4 assms show ?thesis
      by (simp add: fl_def)
  qed
qed

lemma fl_0: "fl 0 = 0"
  by (simp add: fl_def fl_pos_0)

lemma fl_nonneg: "0 \<le> x \<Longrightarrow> 0 \<le> fl x"
  using fl_mono [of 0 x] by (simp add: fl_0)

lemma fl_exact: "fl 1 = 1" "fl 85 = 85"
  by code_simp+

section \<open>Properties of the string primitives\<close>

text \<open>\<open>includes\<close> is the substring relation.\<close>

lemma str_includes_sublist: "str_includes s kw \<longleftrightarrow> sublist kw s"
  by (induction s) (simp_all add: sublist_Cons_right)

lemma str_includes_append: "str_includes (ps @ kw @ ss) kw"
  by (simp add: str_includes_sublist)

lemma split_on_not_Nil: "split_on sep s \<noteq> []"
  by (subst split_on.simps) (simp split: list.split)

lemma split_on_no_sep: "sep \<notin> set s \<Longrightarrow> split_on sep s = [s]"
proof -
  assume "sep \<notin> set s"
  then have "dropWhile (\<lambda>c. c \<noteq> sep) s = []"
    by auto
  then show ?thesis
    by (subst split_on.simps) (simp only: list.case)
qed

lemma split_on_sep: "sep \<notin> set a \<Longrightarrow> split_on sep (a @ sep # b) = a # split_on sep b"
proof -
  assume a: "sep \<notin> set a"
  then have "dropWhile (\<lambda>c. c \<noteq> sep) (a @ sep # b) = sep # b"
    by (auto simp: dropWhile_append3)
  moreover from a have "takeWhile (\<lambda>c. c \<noteq> sep) (a @ sep # b) = a"
    by (auto simp: takeWhile_tail)
  ultimately show ?thesis
    by (subst split_on.simps) (simp only: list.case)
qed

lemma split_on_segments: "seg \<in> set (split_on sep s) \<Longrightarrow> sep \<notin> set seg"
proof (induction sep s rule: split_on.induct)
  case (1 sep s)
  show ?case
  proof (cases "dropWhile (\<lambda>c. c \<noteq> sep) s")
    case Nil
    then have "sep \<notin> set s"
      by auto
    moreover from this "1.prems" have "seg = s"
      by (simp add: split_on_no_sep)
    ultimately show ?thesis by simp
  next
    case (Cons x rest)
    with "1.prems" have "seg = takeWhile (\<lambda>c. c \<noteq> sep) s \<or> seg \<in> set (split_on sep rest)"
      by (subst (asm) split_on.simps) simp
    then show ?thesis
    proof
      assume "seg = takeWhile (\<lambda>c. c \<noteq> sep) s"
      then show ?thesis
        by (auto dest: set_takeWhileD)
    next
      assume "seg \<in> set (split_on sep rest)"
      with "1.IH" Cons show ?thesis by simp
    qed
  qed
qed

lemma join_split_on: "join_on sep (split_on sep s) = s"
proof (induction sep s rule: split_on.induct)
  case (1 sep s)
  show ?case
  proof (cases "dropWhile (\<lambda>c. c \<noteq> sep) s")
    case Nil
    then have "sep \<notin> set s"
      by auto
    then show ?thesis by (simp add: split_on_no_sep)
  next
    case (Cons x rest)
    have x: "x = sep"
      using hd_dropWhile [of "\<lambda>c. c \<noteq> sep" s] Cons by simp
    obtain t ts where ts: "split_on sep rest = t # ts"
      using split_on_not_Nil by (cases "split_on sep rest") auto
    have "join_on sep (split_on sep s) = takeWhile (\<lambda>c. c \<noteq> sep) s @ sep # join_on sep (split_on sep rest)"
      using Cons ts by (subst split_on.simps) simp
    also have "\<dots> = takeWhile (\<lambda>c. c \<noteq> sep) s @ sep # rest"
      using "1.IH" Cons by simp
    also have "\<dots> = takeWhile (\<lambda>c. c \<noteq> sep) s @ dropWhile (\<lambda>c. c \<noteq> sep) s"
      using Cons x by simp
    finally show ?thesis by simp
  qed
qed

lemma split_join_on:
  "xs \<noteq> [] \<Longrightarrow> \<forall>seg \<in> set xs. sep \<notin> set seg \<Longrightarrow> split_on sep (join_on sep xs) = xs"
proof (induction sep xs rule: join_on.induct)
  case (1 sep)
  then show ?case by simp
next
  case (2 sep s)
  then show ?case by (simp add: split_on_no_sep)
next
  case (3 sep s t ss)
  then show ?case by (simp add: split_on_sep)
qed

text \<open>
  \<open>toLowerChar\<close> on the bits of a code unit: the capital letters are the code units
  with bit 6 set and bit 5 clear whose low five bits are 1 to 26 (below U+0080) or
  neither 23 nor 31 (from U+0080 on), and the small letter has bit 5 set. Evaluation
  uses this equation.
\<close>

lemma toLowerChar_bits [code]:
  "toLowerChar (Char b0 b1 b2 b3 b4 b5 b6 b7) =
     (if b6 \<and> \<not> b5 \<and>
         (if b7 then \<not> (b0 \<and> b1 \<and> b2 \<and> b4)
          else (b0 \<or> b1 \<or> b2 \<or> b3 \<or> b4) \<and> \<not> (b4 \<and> b3 \<and> (b2 \<or> (b1 \<and> b0))))
      then Char b0 b1 b2 b3 b4 True b6 b7
      else Char b0 b1 b2 b3 b4 b5 b6 b7)"
  by (cases b0; cases b1; cases b2; cases b3; cases b4; cases b5; cases b6; cases b7)
    (simp_all add: toLowerChar_def char_of_def bit_Suc_0_iff)

section \<open>Properties of the keyword inserter\<close>

lemma insertKeyword_present: "str_includes s kw \<Longrightarrow> insertKeyword s kw = s"
  by (simp add: insertKeyword_def)

lemma insertKeyword_absent:
  assumes "\<not> str_includes s kw" and "split_on CHR ''.'' s = s0 # rest"
  shows "insertKeyword s kw = join_on CHR ''.'' ((s0 @ '' '' @ kw) # rest)"
  using assms by (simp add: insertKeyword_def)

text \<open>
  When the keyword has no \<open>.\<close> of its own, splitting the result again gives the segments
  that were joined.
\<close>

lemma insertKeyword_resplit:
  assumes "\<not> str_includes s kw" and "split_on CHR ''.'' s = s0 # rest"
    and "CHR ''.'' \<notin> set kw"
  shows "split_on CHR ''.'' (insertKeyword s kw) = (s0 @ '' '' @ kw) # rest"
proof -
  have "\<forall>seg \<in> set (s0 # rest). CHR ''.'' \<notin> set seg"
    using split_on_segments [of _ "CHR ''.''" s] assms(2) by metis
  with assms(3) have "\<forall>seg \<in> set ((s0 @ '' '' @ kw) # rest). CHR ''.'' \<notin> set seg"
    by simp
  then have "split_on CHR ''.'' (join_on CHR ''.'' ((s0 @ '' '' @ kw) # rest))
      = (s0 @ '' '' @ kw) # rest"
    by (intro split_join_on) simp_all
  with assms(1,2) show ?thesis
    by (simp add: insertKeyword_absent)
qed

text \<open>
  The result always contains the keyword, so a second application never changes it.
\<close>

lemma join_on_Cons: "\<exists>t. join_on sep (x # xs) = x @ t"
  by (cases xs) simp_all

lemma insertKeyword_includes: "str_includes (insertKeyword s kw) kw"
proof (cases "str_includes s kw")
  case True
  then show ?thesis
    by (simp add: insertKeyword_present)
next
  case False
  obtain s0 rest where seg: "split_on CHR ''.'' s = s0 # rest"
    using split_on_not_Nil [of "CHR ''.''" s] by (cases "split_on CHR ''.'' s") auto
  obtain t where "join_on CHR ''.'' ((s0 @ '' '' @ kw) # rest) = (s0 @ '' '' @ kw) @ t"
    using join_on_Cons by blast
  with False seg have "insertKeyword s kw = (s0 @ '' '') @ kw @ t"
    by (simp add: insertKeyword_absent)
  then show ?thesis
    by (simp only: str_includes_append)
qed

lemma insertKeyword_twice: "insertKeyword (insertKeyword s kw) kw = insertKeyword s kw"
  using insertKeyword_includes by (rule insertKeyword_present)

text \<open>
  C10. For every text the split on \<open>.\<close> is a non-empty list, so the test
  \<open>sentences.length === 0\<close> of \<open>insertKeyword\<close> never succeeds: every call returns the
  text unchanged (the keyword occurs in it) or the segments joined again by \<open>.\<close>, with a
  space and the keyword appended to the first one.
\<close>

theorem insertKeyword_split_nonempty:
  "length (split_on CHR ''.'' text) \<noteq> 0
   \<and> insertKeyword text keyword =
       (if str_includes text keyword then text
        else join_on CHR ''.''
          ((hd (split_on CHR ''.'' text) @ '' '' @ keyword) # tl (split_on CHR ''.'' text)))"
proof -
  obtain s0 rest where seg: "split_on CHR ''.'' text = s0 # rest"
    using split_on_not_Nil [of "CHR ''.''" "text"] by (cases "split_on CHR ''.'' text") auto
  then show ?thesis
    by (simp add: insertKeyword_def)
qed

text \<open>
  C6. \<open>insertKeyword\<close> returns its text unchanged when the keyword occurs in it as a
  substring (compared code unit by code unit, so case matters); hence a second
  application with the same keyword changes nothing, whenever the keyword is a substring
  of the result of the first.
\<close>

theorem insertKeyword_idempotent:
  "(str_includes text keyword \<longrightarrow> insertKeyword text keyword = text)
   \<and> (str_includes (insertKeyword text keyword) keyword \<longrightarrow>
        insertKeyword (insertKeyword text keyword) keyword = insertKeyword text keyword)"
  by (simp add: insertKeyword_present)

theorem insertKeyword_idempotent_witness:
  "str_includes ''We like cats.'' ''cats''
   \<and> insertKeyword ''We like cats.'' ''cats'' = ''We like cats.''
   \<and> str_includes (insertKeyword ''I like cats. They are great.'' ''feline'') ''feline''
   \<and> insertKeyword (insertKeyword ''I like cats. They are great.'' ''feline'') ''feline''
       = ''I like cats feline. They are great.''"
proof -
  have a: "str_includes ''We like cats.'' ''cats''"
    by simp
  have b: "insertKeyword ''I like cats. They are great.'' ''feline''
      = ''I like cats feline. They are great.''"
    by (simp add: insertKeyword_def split_on.simps)
  have c: "str_includes ''I like cats feline. They are great.'' ''feline''"
    by simp
  from a b c
    insertKeyword_idempotent [of "''We like cats.''" "''cats''"]
    insertKeyword_idempotent [of "''I like cats. They are great.''" "''feline''"]
  show ?thesis
    by simp
qed

text \<open>
  C7, as the specification states it: for every text without the keyword the result keeps
  the number of segments, and every segment but the first. For the text "Use it. Now."
  and the keyword "node.js", which does not occur in the text, the text has the three
  segments "Use it", " Now" and "", and the result "Use it node.js. Now." has four:
  "Use it node", "js", " Now" and "". The second segment is no longer " Now".
\<close>

theorem insertKeyword_segments_counterexample:
  "\<not> str_includes ''Use it. Now.'' ''node.js''
   \<and> split_on CHR ''.'' ''Use it. Now.'' = [''Use it'', '' Now'', '''']
   \<and> insertKeyword ''Use it. Now.'' ''node.js'' = ''Use it node.js. Now.''
   \<and> split_on CHR ''.'' (insertKeyword ''Use it. Now.'' ''node.js'')
       = [''Use it node'', ''js'', '' Now'', '''']
   \<and> length (split_on CHR ''.'' (insertKeyword ''Use it. Now.'' ''node.js''))
       \<noteq> length (split_on CHR ''.'' ''Use it. Now.'')
   \<and> tl (split_on CHR ''.'' (insertKeyword ''Use it. Now.'' ''node.js''))
       \<noteq> tl (split_on CHR ''.'' ''Use it. Now.'')"
proof -
  have a: "split_on CHR ''.'' ''Use it. Now.'' = [''Use it'', '' Now'', '''']"
    by (simp add: split_on.simps)
  have b: "insertKeyword ''Use it. Now.'' ''node.js'' = ''Use it node.js. Now.''"
    by (simp add: insertKeyword_def a)
  have c: "split_on CHR ''.'' ''Use it node.js. Now.'' = [''Use it node'', ''js'', '' Now'', '''']"
    by (simp add: split_on.simps)
  show ?thesis
    by (simp add: a b c)
qed

text \<open>
  C7, amended. For a text in which the keyword does not occur, with segments
  \<open>s0, s1, ..., sn\<close> between its \<open>.\<close> characters, \<open>insertKeyword\<close> returns the segments
  \<open>s0 + " " + keyword, s1, ..., sn\<close> joined by \<open>.\<close>. When the keyword contains no \<open>.\<close>,
  these are the segments of the result: it has as many segments as the text, and all but
  the first are as they were. A text with no \<open>.\<close> is one segment, and the result is the
  text, a space and the keyword; so \<open>insertKeyword("no periods here", "x")\<close> is
  \<open>"no periods here x"\<close>.
\<close>

theorem insertKeyword_first_segment:
  assumes "\<not> str_includes text keyword"
    and "split_on CHR ''.'' text = s0 # rest"
  shows "insertKeyword text keyword = join_on CHR ''.'' ((s0 @ '' '' @ keyword) # rest)
    \<and> (CHR ''.'' \<notin> set keyword \<longrightarrow>
         split_on CHR ''.'' (insertKeyword text keyword) = (s0 @ '' '' @ keyword) # rest
         \<and> length (split_on CHR ''.'' (insertKeyword text keyword))
             = length (split_on CHR ''.'' text)
         \<and> tl (split_on CHR ''.'' (insertKeyword text keyword))
             = tl (split_on CHR ''.'' text))
    \<and> (CHR ''.'' \<notin> set text \<longrightarrow> insertKeyword text keyword = text @ '' '' @ keyword)
    \<and> insertKeyword ''no periods here'' ''x'' = ''no periods here x''"
proof -
  have "insertKeyword text keyword = join_on CHR ''.'' ((s0 @ '' '' @ keyword) # rest)"
    using assms by (rule insertKeyword_absent)
  moreover have "split_on CHR ''.'' (insertKeyword text keyword) = (s0 @ '' '' @ keyword) # rest
      \<and> length (split_on CHR ''.'' (insertKeyword text keyword))
          = length (split_on CHR ''.'' text)
      \<and> tl (split_on CHR ''.'' (insertKeyword text keyword)) = tl (split_on CHR ''.'' text)"
    if "CHR ''.'' \<notin> set keyword"
    using insertKeyword_resplit [OF assms that] assms(2) by simp
  moreover have "insertKeyword text keyword = text @ '' '' @ keyword"
    if "CHR ''.'' \<notin> set text"
    using that assms(1) by (simp add: insertKeyword_def split_on_no_sep)
  moreover have "insertKeyword ''no periods here'' ''x'' = ''no periods here x''"
    by (simp add: insertKeyword_def split_on.simps)
  ultimately show ?thesis
    by blast
qed

theorem insertKeyword_first_segment_witness:
  "\<not> str_includes ''I like cats. They are great.'' ''feline''
   \<and> split_on CHR ''.'' ''I like cats. They are great.''
       = ''I like cats'' # ['' They are great'', '''']
   \<and> CHR ''.'' \<notin> set ''feline''
   \<and> insertKeyword ''I like cats. They are great.'' ''feline''
       = ''I like cats feline. They are great.''
   \<and> split_on CHR ''.'' (insertKeyword ''I like cats. They are great.'' ''feline'')
       = [''I like cats feline'', '' They are great'', '''']
   \<and> \<not> str_includes ''no periods here'' ''x''
   \<and> CHR ''.'' \<notin> set ''no periods here''
   \<and> insertKeyword ''no periods here'' ''x'' = ''no periods here'' @ '' '' @ ''x''"
proof -
  have a: "\<not> str_includes ''I like cats. They are great.'' ''feline''"
    by simp
  have b: "split_on CHR ''.'' ''I like cats. They are great.''
      = ''I like cats'' # ['' They are great'', '''']"
    by (simp add: split_on.simps)
  have c: "\<not> str_includes ''no periods here'' ''x''"
    by simp
  have d: "split_on CHR ''.'' ''no periods here'' = ''no periods here'' # []"
    by (simp add: split_on.simps)
  have e: "CHR ''.'' \<notin> set ''no periods here''"
    by simp
  have f: "CHR ''.'' \<notin> set ''feline''"
    by simp
  have g: "split_on CHR ''.'' ''I like cats feline. They are great.''
      = [''I like cats feline'', '' They are great'', '''']"
    by (simp add: split_on.simps)
  from insertKeyword_first_segment [OF a b] insertKeyword_first_segment [OF c d] a b c e f g
  show ?thesis
    by simp
qed

section \<open>Properties of the score calculator\<close>

lemma split_ws_not_Nil: "split_ws s \<noteq> []"
  by (subst split_ws.simps) (simp split: list.split)

lemma fold_max_ge: "a \<le> fold max xs (a::real)"
proof (induction xs arbitrary: a)
  case Nil
  show ?case by simp
next
  case (Cons x xs)
  have "a \<le> max x a"
    by simp
  also have "\<dots> \<le> fold max xs (max x a)"
    by (rule Cons.IH)
  finally show ?case
    by simp
qed

lemma maxTopicScore_nonneg: "0 \<le> maxTopicScore tps"
  unfolding maxTopicScore_def by (rule fold_max_ge)

lemma keywordDensity_nonneg: "0 \<le> keywordDensity k w"
proof -
  have "0 \<le> fl (real k / real w)"
    by (rule fl_nonneg) simp
  then have "0 \<le> fl (fl (real k / real w) * 100)"
    by (intro fl_nonneg) simp
  then show ?thesis
    by (simp add: keywordDensity_def)
qed

lemma keywordDensity_mono: "k1 \<le> k2 \<Longrightarrow> keywordDensity k1 w \<le> keywordDensity k2 w"
proof -
  assume "k1 \<le> k2"
  then have "real k1 / real w \<le> real k2 / real w"
    by (simp add: divide_right_mono)
  then have "fl (real k1 / real w) \<le> fl (real k2 / real w)"
    by (rule fl_mono)
  then have "fl (fl (real k1 / real w) * 100) \<le> fl (fl (real k2 / real w) * 100)"
    by (intro fl_mono) simp
  then show ?thesis
    unfolding keywordDensity_def by (rule min.mono) simp
qed

lemma lengthFactor_nonneg: "0 \<le> lengthFactor n"
  by (simp add: lengthFactor_def fl_nonneg)

lemma keywordFactor_nonneg: "0 \<le> keywordFactor k"
  by (simp add: keywordFactor_def fl_nonneg)

lemma keywordFactor_mono: "k1 \<le> k2 \<Longrightarrow> keywordFactor k1 \<le> keywordFactor k2"
proof -
  have a: "fl 0.7 \<le> fl 0.85"
    by (rule fl_mono) simp
  have "fl 0.85 \<le> fl 1"
    by (rule fl_mono) simp
  then have b: "fl 0.85 \<le> 1"
    by (simp add: fl_exact)
  from a b have c: "fl 0.7 \<le> 1"
    by simp
  assume "k1 \<le> k2"
  with a b c show ?thesis
    by (simp add: keywordFactor_def)
qed

lemma diversityFactor_nonneg: "0 \<le> diversityFactor ts"
  by (simp add: diversityFactor_def Let_def fl_nonneg)

text \<open>
  The raw score depends on the keyword weights through their number only, and grows with
  that number: every operation and every rounding is monotone, and all factors are
  non-negative.
\<close>

lemma rawScore_mono:
  assumes "length kws1 \<le> length kws2"
  shows "rawScore kws1 tps s \<le> rawScore kws2 tps s"
proof -
  define w where "w = length (split_ws (trim s))"
  define b where "b = fl (fl (maxTopicScore tps * 100) * fl 0.8)"
  define l where "l = lengthFactor (length (trim s))"
  define d where "d = diversityFactor (map snd tps)"
  define base where "base k = fl (fl (keywordDensity k w * 2) + b)" for k
  have t: "0 \<le> fl (maxTopicScore tps * 100)"
    using maxTopicScore_nonneg [of tps] by (intro fl_nonneg) simp
  have "0 \<le> fl 0.8"
    by (rule fl_nonneg) simp
  with t have "0 \<le> fl (maxTopicScore tps * 100) * fl 0.8"
    by (rule mult_nonneg_nonneg)
  then have b: "0 \<le> b"
    unfolding b_def by (rule fl_nonneg)
  have base_mono: "base (length kws1) \<le> base (length kws2)"
  proof -
    have "keywordDensity (length kws1) w * 2 \<le> keywordDensity (length kws2) w * 2"
      using keywordDensity_mono [OF assms, of w] by simp
    then have "fl (keywordDensity (length kws1) w * 2) \<le> fl (keywordDensity (length kws2) w * 2)"
      by (rule fl_mono)
    then show ?thesis
      unfolding base_def by (intro fl_mono) simp
  qed
  have base0: "0 \<le> base k" for k
  proof -
    have "0 \<le> fl (keywordDensity k w * 2)"
      using keywordDensity_nonneg [of k w] by (intro fl_nonneg) simp
    with b show ?thesis
      unfolding base_def by (intro fl_nonneg) simp
  qed
  have l: "0 \<le> l"
    unfolding l_def by (rule lengthFactor_nonneg)
  have d: "0 \<le> d"
    unfolding d_def by (rule diversityFactor_nonneg)
  have k: "keywordFactor (length kws1) \<le> keywordFactor (length kws2)"
    using assms by (rule keywordFactor_mono)
  have k0: "0 \<le> keywordFactor (length kws1)"
    by (rule keywordFactor_nonneg)
  have "base (length kws1) * l \<le> base (length kws2) * l"
    using base_mono l by (rule mult_right_mono)
  then have bl: "fl (base (length kws1) * l) \<le> fl (base (length kws2) * l)"
    by (rule fl_mono)
  have bl0: "0 \<le> fl (base k * l)" for k
    using base0 [of k] l by (intro fl_nonneg) simp
  have "fl (base (length kws1) * l) * keywordFactor (length kws1)
      \<le> fl (base (length kws2) * l) * keywordFactor (length kws2)"
    using bl k bl0 k0 by (rule mult_mono)
  then have "fl (fl (base (length kws1) * l) * keywordFactor (length kws1))
      \<le> fl (fl (base (length kws2) * l) * keywordFactor (length kws2))"
    by (rule fl_mono)
  then have "fl (fl (base (length kws1) * l) * keywordFactor (length kws1)) * d
      \<le> fl (fl (base (length kws2) * l) * keywordFactor (length kws2)) * d"
    using d by (rule mult_right_mono)
  then have "fl (fl (fl (base (length kws1) * l) * keywordFactor (length kws1)) * d)
      \<le> fl (fl (fl (base (length kws2) * l) * keywordFactor (length kws2)) * d)"
    by (rule fl_mono)
  then show ?thesis
    by (simp add: rawScore_def Let_def w_def b_def l_def d_def base_def)
qed

lemma degenerate_mono:
  "length kws1 \<le> length kws2 \<Longrightarrow> degenerate kws2 s \<Longrightarrow> degenerate kws1 s"
  by (auto simp: degenerate_def)

lemma Math_round_mono: "x \<le> y \<Longrightarrow> Math_round x \<le> Math_round y"
  unfolding Math_round_def by (intro floor_mono) simp

lemma calculateScore_range: "0 \<le> calculateScore kws tps s \<and> calculateScore kws tps s \<le> 100"
  by (simp add: calculateScore_def Let_def)

text \<open>The adjustment above 85 is monotone as well.\<close>

lemma adjust_mono:
  assumes "x \<le> y"
  shows "(if x > 85 then fl (85 + fl (fl (x - 85) * fl 0.3)) else x)
    \<le> (if y > 85 then fl (85 + fl (fl (y - 85) * fl 0.3)) else y)"
proof (cases "85 < y")
  case True
  have c: "0 \<le> fl 0.3"
    by (rule fl_nonneg) simp
  have "0 \<le> fl (y - 85)"
    using True by (intro fl_nonneg) simp
  then have "0 \<le> fl (y - 85) * fl 0.3"
    using c by (rule mult_nonneg_nonneg)
  then have "0 \<le> fl (fl (y - 85) * fl 0.3)"
    by (rule fl_nonneg)
  then have "fl 85 \<le> fl (85 + fl (fl (y - 85) * fl 0.3))"
    by (intro fl_mono) simp
  then have low: "85 \<le> fl (85 + fl (fl (y - 85) * fl 0.3))"
    by (simp add: fl_exact)
  show ?thesis
  proof (cases "85 < x")
    case False
    with low True show ?thesis
      by simp
  next
    case x: True
    have "fl (x - 85) \<le> fl (y - 85)"
      using assms by (intro fl_mono) simp
    then have "fl (x - 85) * fl 0.3 \<le> fl (y - 85) * fl 0.3"
      using c by (rule mult_right_mono)
    then have "fl (fl (x - 85) * fl 0.3) \<le> fl (fl (y - 85) * fl 0.3)"
      by (rule fl_mono)
    then have "fl (85 + fl (fl (x - 85) * fl 0.3)) \<le> fl (85 + fl (fl (y - 85) * fl 0.3))"
      by (intro fl_mono) simp
    with x True show ?thesis
      by simp
  qed
next
  case False
  with assms show ?thesis
    by simp
qed

lemma calculateScore_mono:
  assumes "length kws1 \<le> length kws2"
  shows "calculateScore kws1 tps s \<le> calculateScore kws2 tps s"
proof (cases "degenerate kws1 s")
  case True
  then have "calculateScore kws1 tps s = 0"
    by (simp add: calculateScore_def)
  then show ?thesis
    using calculateScore_range [of kws2 tps s] by simp
next
  case False
  then have nd: "\<not> degenerate kws2 s"
    using assms by (auto simp: degenerate_def)
  define adj :: "real \<Rightarrow> real"
    where "adj x = (if x > 85 then fl (85 + fl (fl (x - 85) * fl 0.3)) else x)" for x
  have "adj (rawScore kws1 tps s) \<le> adj (rawScore kws2 tps s)"
    unfolding adj_def using rawScore_mono [OF assms] by (rule adjust_mono)
  then have "Math_round (adj (rawScore kws1 tps s)) \<le> Math_round (adj (rawScore kws2 tps s))"
    by (rule Math_round_mono)
  then have "min 100 (max 0 (Math_round (adj (rawScore kws1 tps s))))
      \<le> min 100 (max 0 (Math_round (adj (rawScore kws2 tps s))))"
    by simp
  with False nd show ?thesis
    by (simp add: calculateScore_def Let_def adj_def)
qed

lemma calculateScore_count_only:
  "length kws1 = length kws2 \<Longrightarrow> calculateScore kws1 tps s = calculateScore kws2 tps s"
  by (simp add: calculateScore_def degenerate_def rawScore_def)

subsection \<open>The sample inputs\<close>

lemma sample_text_length: "length (trim sample_text) = 686"
  by code_simp

lemma sample_text_words: "length (split_ws (trim sample_text)) = 80"
  by code_simp

lemma sample_not_degenerate: "\<not> degenerate sample_keywords sample_text"
  by (simp add: degenerate_def sample_text_length sample_text_words sample_keywords_def)

lemma sample_rawScore: "rawScore sample_keywords sample_topics sample_text = 100"
  by code_simp

lemma adjust_100: "fl (85 + fl (fl 15 * fl (3 / 10))) = 179 / 2"
  by code_simp

lemma sample_score: "calculateScore sample_keywords sample_topics sample_text = 90"
  by (simp add: calculateScore_def sample_not_degenerate sample_rawScore adjust_100
      Math_round_def)

lemma sample_score_3: "calculateScore (take 3 sample_keywords) sample_topics sample_text = 70"
  by code_simp

text \<open>
  Two inputs on which the rounding matters. On the text of 50 words the doubles give
  \<open>12 * 2 + 95 * 0.8 = 100\<close> exactly, where the product of the exact value of the double
  \<open>0.95\<close> is below 100. On the text of 24 words the exact value of
  \<open>1 / 24 * 100 * 2 * 0.6 * 0.7\<close> is 3.5, the doubles give 3.499999999999999, and the score
  is 3.
\<close>

lemma exact_values:
  "12 * 2 + fl 0.95 * 100 * 0.8 < (100::real)
   \<and> 1 / 24 * 100 * 2 * 0.6 * 0.7 = (3.5::real)"
  by code_simp

lemma long_words_not_degenerate: "\<not> degenerate (take 6 sample_keywords) long_words_text"
  by code_simp

lemma long_words_rawScore:
  "length (trim long_words_text) = 554
   \<and> length (split_ws (trim long_words_text)) = 50
   \<and> rawScore (take 6 sample_keywords) long_words_topics long_words_text = 100"
  by code_simp

lemma short_words_score:
  "length (trim short_words_text) = 71
   \<and> length (split_ws (trim short_words_text)) = 24
   \<and> rawScore [(''seo'', 1)] [] short_words_text
       = 3940649673949183 / 1125899906842624
   \<and> calculateScore [(''seo'', 1)] [] short_words_text = 3"
  by code_simp

subsection \<open>The claims about the score\<close>

text \<open>
  C1. \<open>calculateScore\<close> returns 0 when the trimmed text has fewer than 20 code units,
  or the keyword map has no entry, or the trimmed text splits at white space into fewer
  than 5 words; so \<open>calculateScore({}, {}, "hi")\<close> is 0.
\<close>

theorem calculateScore_degenerate:
  "(length (trim text) < 20 \<or> length kws = 0 \<or> length (split_ws (trim text)) < 5
      \<longrightarrow> calculateScore kws tps text = 0)
   \<and> calculateScore [] [] ''hi'' = 0"
  by (simp add: calculateScore_def degenerate_def)

theorem calculateScore_degenerate_witness:
  "length (trim ''too short'') < 20
   \<and> calculateScore sample_keywords sample_topics ''too short'' = 0
   \<and> length ([] :: weights) = 0
   \<and> calculateScore [] sample_topics sample_text = 0
   \<and> length (split_ws (trim ''search engines reward pages'')) < 5
   \<and> calculateScore sample_keywords sample_topics ''search engines reward pages'' = 0"
proof -
  have a: "length (trim ''too short'') < 20"
    by code_simp
  have b: "length (split_ws (trim ''search engines reward pages'')) < 5"
    by code_simp
  from a b
    calculateScore_degenerate [of "''too short''" sample_keywords sample_topics]
    calculateScore_degenerate [of sample_text "[]" sample_topics]
    calculateScore_degenerate [of "''search engines reward pages''" sample_keywords sample_topics]
  show ?thesis
    by simp
qed

text \<open>
  C2. For keyword and topic maps with non-negative weights and every text, the value of
  \<open>calculateScore\<close> is an integer (the model returns an \<^typ>\<open>int\<close>, the result of
  \<open>Math.round\<close>) between 0 and 100.
\<close>

theorem calculateScore_bounds:
  assumes "\<forall>e \<in> set kws. 0 \<le> snd e" and "\<forall>e \<in> set tps. 0 \<le> snd e"
  shows "0 \<le> calculateScore kws tps text \<and> calculateScore kws tps text \<le> 100"
  by (rule calculateScore_range)

theorem calculateScore_bounds_witness:
  "list_all (\<lambda>e. 0 \<le> snd e) sample_keywords
   \<and> list_all (\<lambda>e. 0 \<le> snd e) sample_topics
   \<and> 0 \<le> calculateScore sample_keywords sample_topics sample_text
   \<and> calculateScore sample_keywords sample_topics sample_text \<le> 100"
proof -
  have a: "\<forall>e \<in> set sample_keywords. 0 \<le> snd e"
    by (simp add: sample_keywords_def)
  have b: "\<forall>e \<in> set sample_topics. 0 \<le> snd e"
    by (simp add: sample_topics_def)
  from calculateScore_bounds [OF a b, of sample_text] a b show ?thesis
    by (simp add: list_all_iff)
qed

text \<open>
  C3, as the specification states it: an input whose raw score is exactly 100 would get
  the score 89. The sample input has the raw score 100 and gets 90: the adjustment gives
  \<open>85 + 15 * 0.3 = 89.5\<close>, and \<open>Math.round\<close> rounds a half up.
\<close>

theorem calculateScore_raw_100_counterexample:
  "rawScore sample_keywords sample_topics sample_text = 100
   \<and> calculateScore sample_keywords sample_topics sample_text = 90
   \<and> calculateScore sample_keywords sample_topics sample_text \<noteq> 89"
  by (simp add: sample_rawScore sample_score)

text \<open>
  C3, amended. For an input that passes the guard of \<open>calculateScore\<close> and whose raw
  score (base score times length, keyword and diversity factor, as the doubles of the
  source compute it, before the adjustment above 85) is exactly 100, the returned score
  is 90, the rounded value of \<open>85 + 15 * 0.3 = 89.5\<close>; it is never 100.
\<close>

theorem calculateScore_raw_100:
  assumes "\<not> degenerate kws text" and "rawScore kws tps text = 100"
  shows "calculateScore kws tps text = 90 \<and> calculateScore kws tps text \<noteq> 100"
  using assms by (simp add: calculateScore_def adjust_100 Math_round_def)

theorem calculateScore_raw_100_witness:
  "\<not> degenerate sample_keywords sample_text
   \<and> rawScore sample_keywords sample_topics sample_text = 100
   \<and> calculateScore sample_keywords sample_topics sample_text = 90
   \<and> \<not> degenerate (take 6 sample_keywords) long_words_text
   \<and> rawScore (take 6 sample_keywords) long_words_topics long_words_text = 100
   \<and> calculateScore (take 6 sample_keywords) long_words_topics long_words_text = 90"
proof -
  note a = sample_not_degenerate and b = sample_rawScore
  note c = long_words_not_degenerate
  have d: "rawScore (take 6 sample_keywords) long_words_topics long_words_text = 100"
    using long_words_rawScore by simp
  from calculateScore_raw_100 [OF a b] calculateScore_raw_100 [OF c d] a b c d show ?thesis
    by simp
qed

text \<open>
  C5. With the topic map and the text fixed, \<open>calculateScore\<close> does not decrease when the
  keyword map gets more entries, as long as the keyword density
  \<open>keywordCount / wordCount * 100\<close> of the larger map is below the cap of 20.
\<close>

theorem calculateScore_monotone:
  assumes "length kws1 \<le> length kws2"
    and "real (length kws2) / real (length (split_ws (trim text))) * 100 < 20"
  shows "calculateScore kws1 tps text \<le> calculateScore kws2 tps text"
  using assms(1) by (rule calculateScore_mono)

theorem calculateScore_monotone_witness:
  "length (take 3 sample_keywords) \<le> length sample_keywords
   \<and> real (length sample_keywords) / real (length (split_ws (trim sample_text))) * 100 < 20
   \<and> calculateScore (take 3 sample_keywords) sample_topics sample_text = 70
   \<and> calculateScore sample_keywords sample_topics sample_text = 90
   \<and> calculateScore (take 3 sample_keywords) sample_topics sample_text
       \<le> calculateScore sample_keywords sample_topics sample_text"
proof -
  have a: "length (take 3 sample_keywords) \<le> length sample_keywords"
    by simp
  have b: "real (length sample_keywords) / real (length (split_ws (trim sample_text))) * 100
      < 20"
    by (simp add: sample_text_words sample_keywords_def)
  note c = sample_score_3 and d = sample_score
  from calculateScore_monotone [OF a b, of sample_topics] a b c d show ?thesis
    by simp
qed

text \<open>
  C9. \<open>calculateScore\<close> reads of the keyword map the number of entries only: two keyword
  maps with the same number of entries get the same score for every text and topic map,
  whatever their keys and weights.
\<close>

theorem calculateScore_keyword_count_only:
  "length kws1 = length kws2 \<Longrightarrow> calculateScore kws1 tps text = calculateScore kws2 tps text"
  by (rule calculateScore_count_only)

theorem calculateScore_keyword_count_only_witness:
  "length [(''cats'', 0.25), (''dogs'', 0.5), (''birds'', 0.75 :: real)]
     = length (take 3 sample_keywords)
   \<and> calculateScore [(''cats'', 0.25), (''dogs'', 0.5), (''birds'', 0.75)] sample_topics
         sample_text = 70
   \<and> calculateScore (take 3 sample_keywords) sample_topics sample_text = 70"
proof -
  have a: "length [(''cats'', 0.25), (''dogs'', 0.5), (''birds'', 0.75 :: real)]
      = length (take 3 sample_keywords)"
    by (simp add: sample_keywords_def)
  from calculateScore_keyword_count_only [OF a, of sample_topics sample_text] a sample_score_3
  show ?thesis
    by simp
qed

section \<open>Properties of the content filter\<close>

lemma spec_placeholder_iff:
  "spec_placeholder s \<longleftrightarrow>
     str_includes (toLowerCase s) ''lorem ipsum''
     \<or> str_includes (toLowerCase s) ''sample text''
     \<or> str_includes (toLowerCase s) ''placeholder''"
  by (simp add: spec_placeholder_def str_includes_sublist)

lemma spec_repetitive_iff:
  "spec_repetitive s \<longleftrightarrow>
     real (length (remdups (split_ws (toLowerCase s))))
       / real (length (split_ws (toLowerCase s))) < 0.5
     \<and> length (split_ws (toLowerCase s)) > 10"
  by (simp add: spec_repetitive_def Let_def card_set)

lemma spec_excluded_iff:
  "spec_excluded kw \<longleftrightarrow>
     \<not> (length kw > 2 \<and> toLowerCase kw \<notin> set commonWords \<and> \<not> all_digits kw)"
  unfolding spec_excluded_def all_digits_def list_all_iff by auto

lemma spec_no_keyword_iff:
  "spec_no_keyword kws \<longleftrightarrow>
     \<not> length (filter (\<lambda>kw. length kw > 2 \<and> toLowerCase kw \<notin> set commonWords
                              \<and> \<not> all_digits kw) (map fst kws)) > 0"
  by (simp add: spec_no_keyword_def spec_excluded_iff filter_empty_conv)

lemma sample_lower_words:
  "length (split_ws (toLowerCase sample_text)) = 80
   \<and> length (remdups (split_ws (toLowerCase sample_text))) = 75"
  by code_simp

text \<open>
  C8. \<open>isMeaningfulContent\<close> returns false exactly when one of the four rejection
  conditions holds: the lower-cased text contains "lorem ipsum", "sample text" or
  "placeholder"; the trimmed text has fewer than 10 code units; the unique lower-cased
  tokens of the split at white space are less than half of the tokens while there are
  more than 10 tokens; or every keyword is a stop word (compared in lower case), has at
  most 2 code units or consists of digits only. Otherwise it returns true. In particular
  \<open>isMeaningfulContent("Lorem ipsum dolor sit amet", {"lorem": 1})\<close> is false.
\<close>

theorem isMeaningfulContent_rejects_iff:
  "(isMeaningfulContent text kws = False \<longleftrightarrow>
      spec_placeholder text \<or> spec_too_short text \<or> spec_repetitive text
      \<or> spec_no_keyword kws)
   \<and> isMeaningfulContent ''Lorem ipsum dolor sit amet'' [(''lorem'', 1)] = False"
proof -
  have "isMeaningfulContent text kws = False \<longleftrightarrow>
      spec_placeholder text \<or> spec_too_short text \<or> spec_repetitive text
      \<or> spec_no_keyword kws"
    unfolding spec_placeholder_iff spec_too_short_def spec_repetitive_iff spec_no_keyword_iff
    by (auto simp: isMeaningfulContent_def Let_def)
  moreover have "isMeaningfulContent ''Lorem ipsum dolor sit amet'' [(''lorem'', 1)] = False"
    by code_simp
  ultimately show ?thesis
    by simp
qed

theorem isMeaningfulContent_rejects_iff_witness:
  "\<not> spec_placeholder sample_text \<and> \<not> spec_too_short sample_text
   \<and> \<not> spec_repetitive sample_text \<and> \<not> spec_no_keyword sample_keywords
   \<and> isMeaningfulContent sample_text sample_keywords = True
   \<and> spec_placeholder ''Lorem ipsum dolor sit amet''
   \<and> isMeaningfulContent ''Lorem ipsum dolor sit amet'' sample_keywords = False"
proof -
  have a: "\<not> spec_placeholder sample_text"
    by code_simp
  have b: "\<not> spec_too_short sample_text"
    by (simp add: spec_too_short_def sample_text_length)
  have c: "\<not> spec_repetitive sample_text"
    by (simp add: spec_repetitive_iff sample_lower_words)
  have d: "\<not> spec_no_keyword sample_keywords"
    by code_simp
  have e: "spec_placeholder ''Lorem ipsum dolor sit amet''"
    by code_simp
  from a b c d e
    isMeaningfulContent_rejects_iff [of sample_text sample_keywords]
    isMeaningfulContent_rejects_iff [of "''Lorem ipsum dolor sit amet''" sample_keywords]
  show ?thesis
    by simp
qed

section \<open>Properties of the request handler\<close>

text \<open>
  When the filter accepts, the category of the response is the banding of its score; when
  the filter rejects, the response has the score 0 and the fixed category "low".
\<close>

lemma analyze_accepted:
  "isMeaningfulContent t kws \<Longrightarrow>
     score (analyze t kws tps) = calculateScore kws tps t
     \<and> scoreCategory (analyze t kws tps) = spec_band (score (analyze t kws tps))"
  by (simp add: analyze_def Let_def spec_band_def)

lemma analyze_rejected:
  "\<not> isMeaningfulContent t kws \<Longrightarrow>
     score (analyze t kws tps) = 0 \<and> scoreCategory (analyze t kws tps) = ''low''
     \<and> keywordList (analyze t kws tps) = []"
  by (simp add: analyze_def)

text \<open>
  C4. The claim is that the category of every response is the banding of its score, the
  response of a rejected text included. For the placeholder text
  "Lorem ipsum dolor sit amet" with the keyword map \<open>{"lorem": 1}\<close> the filter rejects,
  and the response has the score 0 with the category "low", where the banding of 0 is
  "very-low".
\<close>

theorem analyze_rejected_category:
  "score (analyze ''Lorem ipsum dolor sit amet'' [(''lorem'', 1)] []) = 0
   \<and> scoreCategory (analyze ''Lorem ipsum dolor sit amet'' [(''lorem'', 1)] []) = ''low''
   \<and> spec_band (score (analyze ''Lorem ipsum dolor sit amet'' [(''lorem'', 1)] []))
       = ''very-low''
   \<and> scoreCategory (analyze ''Lorem ipsum dolor sit amet'' [(''lorem'', 1)] [])
       \<noteq> spec_band (score (analyze ''Lorem ipsum dolor sit amet'' [(''lorem'', 1)] []))"
proof -
  have "\<not> isMeaningfulContent ''Lorem ipsum dolor sit amet'' [(''lorem'', 1)]"
    by code_simp
  then have "score (analyze ''Lorem ipsum dolor sit amet'' [(''lorem'', 1)] []) = 0
      \<and> scoreCategory (analyze ''Lorem ipsum dolor sit amet'' [(''lorem'', 1)] []) = ''low''"
    by (simp add: analyze_rejected)
  then show ?thesis
    by (simp add: spec_band_def)
qed

end
